theory Spec2Isabelle
  imports Main
begin

section \<open>The text rewrite of \<open>wasm/patch.py\<close>\<close>

text \<open>
  The script decodes a WebAssembly binary to text with an external tool, rewrites the
  text line by line, and encodes the result again. The rewrite is a single \<open>for\<close>
  loop over the lines of the decoded file that mutates six module-level variables.
  The loop is modelled by explicit state passing: one record field per variable, one
  more for what \<open>print\<close> wrote. Python's \<open>str\<close> is modelled as \<open>string\<close>; a character
  is one of Isabelle's 256 \<open>char\<close>s, read as the code points U+0000 to U+00FF.
\<close>

subsection \<open>String operations used by the script\<close>

text \<open>
  \<open>str.strip()\<close> removes the characters for which \<open>str.isspace\<close> holds. Below U+0100
  these are tab, line feed, vertical tab, form feed, carriage return, the four
  separators U+001C to U+001F, space, U+0085 and U+00A0.
\<close>

definition isspace :: "char \<Rightarrow> bool" where
  "isspace c = (c \<in> set [CHR 0x09, CHR 0x0A, CHR 0x0B, CHR 0x0C, CHR 0x0D,
                          CHR 0x1C, CHR 0x1D, CHR 0x1E, CHR 0x1F, CHR 0x20,
                          CHR 0x85, CHR 0xA0])"

definition strip :: "string \<Rightarrow> string" where
  "strip s = rev (dropWhile isspace (rev (dropWhile isspace s)))"

definition startswith :: "string \<Rightarrow> string \<Rightarrow> bool" where
  "startswith s p = (take (length p) s = p)"

text \<open>\<open>p in s\<close> on strings: \<open>p\<close> occurs in \<open>s\<close> as a contiguous run of characters.\<close>

fun str_in :: "string \<Rightarrow> string \<Rightarrow> bool" where
  "str_in p [] = (p = [])"
| "str_in p (c # cs) = (startswith (c # cs) p \<or> str_in p cs)"

text \<open>
  \<open>file.readlines()\<close>: the text is cut after every line feed, and each line keeps its
  line feed; a last line without one is kept as it is. (The translation of other line
  endings that Python's text mode performs while decoding the file happens before
  this and is not modelled: \<open>text\<close> is the decoded text.)
\<close>

fun readlines :: "string \<Rightarrow> string list" where
  "readlines [] = []"
| "readlines (c # cs) =
     (if c = CHR 0x0A then [c] # readlines cs
      else (case readlines cs of [] \<Rightarrow> [[c]] | l # ls \<Rightarrow> (c # l) # ls))"

subsection \<open>The scanner state and the loop body\<close>

datatype error = Exception string | AssertionError | FileNotFoundError

record state =
  new_lines :: "string list"
  inside_func :: bool
  func_depth :: int
  clear_func :: bool
  func_lines :: "string list"
  func_sig :: string
  printed :: "string list"

definition initial :: state where
  "initial = \<lparr>new_lines = [], inside_func = False, func_depth = 0, clear_func = False,
              func_lines = [], func_sig = [], printed = []\<rparr>"

text \<open>The test of the first \<open>if\<close> of the loop body, and the test of \<open>clear_func\<close>.\<close>

definition opens_func :: "string \<Rightarrow> bool" where
  "opens_func line = startswith (strip line) ''(func''"

definition float_marker :: "string \<Rightarrow> bool" where
  "float_marker line = (str_in ''f64'' line \<or> str_in ''f32'' line)"

text \<open>The first \<open>if\<close> of the loop body (\<open># func start\<close>). It does not look at \<open>inside_func\<close>.\<close>

definition func_start :: "string \<Rightarrow> state \<Rightarrow> state" where
  "func_start line s =
     (if opens_func line
      then s\<lparr>inside_func := True, func_lines := [],
             clear_func := float_marker line, func_sig := strip line\<rparr>
      else s)"

text \<open>The inner loop \<open>for c in line\<close>, started at the current depth.\<close>

fun count_parens :: "string \<Rightarrow> int \<Rightarrow> int" where
  "count_parens [] d = d"
| "count_parens (c # cs) d =
     count_parens cs (if c = CHR ''('' then d + 1 else if c = CHR '')'' then d - 1 else d)"

text \<open>
  The second \<open>if\<close>/\<open>else\<close> of the loop body. The two tests of \<open>func_depth\<close> stand after
  the inner loop, so they see the depth at the end of the line only.
  \<open>print("clear func: ", func_sig)\<close> writes its two arguments separated by a space.
\<close>

definition scan_line :: "string \<Rightarrow> state \<Rightarrow> error + state" where
  "scan_line line s =
     (if inside_func s then
        (let s1 = s\<lparr>clear_func := (clear_func s \<or> float_marker line),
                    func_lines := func_lines s @ [line],
                    func_depth := count_parens line (func_depth s)\<rparr>
         in if func_depth s1 < 0 then Inl (Exception ''func depth < 0'')
            else if func_depth s1 = 0 then
              (if clear_func s1
               then Inr (s1\<lparr>inside_func := False,
                             printed := printed s1 @ [''clear func: '' @ '' '' @ func_sig s1],
                             new_lines := new_lines s1 @ [''(func )\<newline>'']\<rparr>)
               else Inr (s1\<lparr>inside_func := False,
                             new_lines := new_lines s1 @ func_lines s1\<rparr>))
            else Inr s1)
      else Inr (s\<lparr>new_lines := new_lines s @ [line]\<rparr>))"

definition loop_body :: "string \<Rightarrow> state \<Rightarrow> error + state" where
  "loop_body line s = scan_line line (func_start line s)"

text \<open>\<open>for line in fp.readlines()\<close>: an exception leaves the loop at once.\<close>

fun for_lines :: "string list \<Rightarrow> state \<Rightarrow> error + state" where
  "for_lines [] s = Inr s"
| "for_lines (line # rest) s =
     (case loop_body line s of Inl e \<Rightarrow> Inl e | Inr s' \<Rightarrow> for_lines rest s')"

text \<open>
  From the decoded text to the text written to \<open>pkg/patched.wat\<close>: the loop from the
  initial values of the variables, then \<open>''.join(new_lines)\<close>. Nothing is checked
  between the end of the loop and the write.
\<close>

definition patch_lines :: "string list \<Rightarrow> error + string list" where
  "patch_lines ls = (case for_lines ls initial of Inl e \<Rightarrow> Inl e | Inr s \<Rightarrow> Inr (new_lines s))"

definition patch_text :: "string \<Rightarrow> error + string" where
  "patch_text text =
     (case patch_lines (readlines text) of Inl e \<Rightarrow> Inl e | Inr ls \<Rightarrow> Inr (concat ls))"

subsection \<open>The whole script\<close>

text \<open>
  The file system is a map from paths to contents. An external converter is a
  parameter \<open>run\<close>: from the argument vector and the files it finds to its return code
  and the files it leaves. The world also records every process the script started.
\<close>

record world =
  files :: "string \<Rightarrow> string option"
  spawned :: "string list list"

definition WASM2WAT :: string where "WASM2WAT = ''wasm2wat''"
definition WAT2WASM :: string where "WAT2WASM = ''wat2wasm''"
definition WASM_PATH :: string where "WASM_PATH = ''pkg/zkwasm_prover_bg.wasm''"

definition decode_cmd :: "string list" where
  "decode_cmd = [WASM2WAT, WASM_PATH, ''-o'', ''pkg/origin.wat'']"

definition encode_cmd :: "string list" where
  "encode_cmd = [WAT2WASM, ''pkg/patched.wat'', ''-o'', ''pkg/zkwasm_prover_bg_patched.wasm'']"

definition subprocess_run ::
  "(string list \<Rightarrow> (string \<Rightarrow> string option) \<Rightarrow> int \<times> (string \<Rightarrow> string option))
    \<Rightarrow> string list \<Rightarrow> world \<Rightarrow> int \<times> world" where
  "subprocess_run run argv w =
     (case run argv (files w) of
        (returncode, fs) \<Rightarrow> (returncode, \<lparr>files = fs, spawned = spawned w @ [argv]\<rparr>))"

text \<open>
  The script from top to bottom. The result is the exception that ended it, if any,
  and the world it leaves. A failed \<open>assert\<close> is \<open>AssertionError\<close>; opening a
  missing \<open>pkg/origin.wat\<close> is \<open>FileNotFoundError\<close>.
\<close>

definition main ::
  "(string list \<Rightarrow> (string \<Rightarrow> string option) \<Rightarrow> int \<times> (string \<Rightarrow> string option))
    \<Rightarrow> world \<Rightarrow> error option \<times> world" where
  "main run w =
     (case subprocess_run run decode_cmd w of
        (rc1, w1) \<Rightarrow>
          if rc1 \<noteq> 0 then (Some AssertionError, w1)
          else
            (case files w1 ''pkg/origin.wat'' of
               None \<Rightarrow> (Some FileNotFoundError, w1)
             | Some text \<Rightarrow>
                 (case patch_text text of
                    Inl e \<Rightarrow> (Some e, w1)
                  | Inr out \<Rightarrow>
                      (case subprocess_run run encode_cmd
                              (w1\<lparr>files := (files w1)(''pkg/patched.wat'' \<mapsto> out)\<rparr>) of
                         (rc2, w2) \<Rightarrow>
                           if rc2 \<noteq> 0 then (Some AssertionError, w2) else (None, w2)))))"


subsection \<open>The vocabulary of the specification\<close>

text \<open>
  The specification speaks of the parenthesis depth accumulated character by character
  over a run of lines, of a floating-point reference in a run of lines, of the scanner
  being at top level, and of a Function Definition: a run of lines whose first line is
  an opening line and whose last line is the one at which the depth, counted from the
  opening line, returns to zero. The script compares the depth with zero at the end of
  a line, so the depth is positive at the end of every line but the last and zero at
  the end of the last. Nothing is said here about the lines after the first.
\<close>

definition depth_of :: "string list \<Rightarrow> int" where
  "depth_of ls = count_parens (concat ls) 0"

definition has_float :: "string list \<Rightarrow> bool" where
  "has_float ls = (\<exists>l\<in>set ls. float_marker l)"

definition top_level :: "state \<Rightarrow> bool" where
  "top_level s = (\<not> inside_func s \<and> func_depth s = 0)"

definition is_function :: "string list \<Rightarrow> bool" where
  "is_function ls =
     (ls \<noteq> [] \<and> opens_func (hd ls) \<and>
      (\<forall>k\<in>{1..<length ls}. 0 < depth_of (take k ls)) \<and> depth_of ls = 0)"

text \<open>
  The script runs its opening test on every line, also inside a function. The following
  condition is not part of the specification's Function Definition: it says that no
  line after the first passes that test. The theorems that need it name it among
  their hypotheses.
\<close>

definition opens_once :: "string list \<Rightarrow> bool" where
  "opens_once ls = (\<forall>x\<in>set (tl ls). \<not> opens_func x)"

text \<open>
  A module as the specification's data model has it: a sequence of Top-Level Forms.
  \<open>stub_rewriter\<close> is the rewrite the specification asks for, form by form.
\<close>

datatype top_level_form = PlainLine string | FunctionDefinition "string list"

fun form_lines :: "top_level_form \<Rightarrow> string list" where
  "form_lines (PlainLine l) = [l]"
| "form_lines (FunctionDefinition ls) = ls"

fun well_formed :: "top_level_form \<Rightarrow> bool" where
  "well_formed (PlainLine l) = (\<not> opens_func l)"
| "well_formed (FunctionDefinition ls) = is_function ls"

fun opened_once :: "top_level_form \<Rightarrow> bool" where
  "opened_once (PlainLine l) = True"
| "opened_once (FunctionDefinition ls) = opens_once ls"

fun has_float_reference :: "top_level_form \<Rightarrow> bool" where
  "has_float_reference (PlainLine l) = False"
| "has_float_reference (FunctionDefinition ls) = has_float ls"

fun stub_rewriter :: "top_level_form \<Rightarrow> string list" where
  "stub_rewriter (PlainLine l) = [l]"
| "stub_rewriter (FunctionDefinition ls) = (if has_float ls then [''(func )\<newline>''] else ls)"

text \<open>
  The state the loop is in after the lines \<open>ls\<close> of a function that is still open, and
  after the lines \<open>ls\<close> of a function that has just been closed, both entered from \<open>s\<close>.
\<close>

definition func_opened :: "state \<Rightarrow> string list \<Rightarrow> state" where
  "func_opened s ls = s\<lparr>inside_func := True, func_lines := ls, clear_func := has_float ls,
                     func_sig := strip (hd ls), func_depth := depth_of ls\<rparr>"

definition func_closed :: "state \<Rightarrow> string list \<Rightarrow> state" where
  "func_closed s ls =
     (if has_float ls
      then s\<lparr>inside_func := False, func_lines := ls, clear_func := True,
             func_sig := strip (hd ls), func_depth := 0,
             printed := printed s @ [''clear func: '' @ '' '' @ strip (hd ls)],
             new_lines := new_lines s @ [''(func )\<newline>'']\<rparr>
      else s\<lparr>inside_func := False, func_lines := ls, clear_func := False,
             func_sig := strip (hd ls), func_depth := 0,
             new_lines := new_lines s @ ls\<rparr>)"

section \<open>Auxiliary facts\<close>

lemma count_parens_append: "count_parens (a @ b) d = count_parens b (count_parens a d)"
  by (induction a arbitrary: d) auto

lemma for_lines_append:
  "for_lines (xs @ ys) s = (case for_lines xs s of Inl e \<Rightarrow> Inl e | Inr s' \<Rightarrow> for_lines ys s')"
  by (induction xs arbitrary: s) (auto split: sum.splits)

lemma has_float_simps [simp]:
  "has_float [] = False"
  "has_float (x # xs) = (float_marker x \<or> has_float xs)"
  "has_float (xs @ ys) = (has_float xs \<or> has_float ys)"
  by (auto simp: has_float_def)

lemma body_line_open:
  assumes "inside_func s" "\<not> opens_func x" "0 < count_parens x (func_depth s)"
  shows "loop_body x s =
           Inr (s\<lparr>clear_func := (clear_func s \<or> float_marker x),
                  func_lines := func_lines s @ [x],
                  func_depth := count_parens x (func_depth s)\<rparr>)"
  using assms by (simp add: loop_body_def func_start_def scan_line_def Let_def)

lemma body_lines_open:
  assumes "inside_func s" "\<forall>x\<in>set xs. \<not> opens_func x"
    "\<forall>k\<in>{1..length xs}. 0 < count_parens (concat (take k xs)) (func_depth s)"
  shows "for_lines xs s =
           Inr (s\<lparr>clear_func := (clear_func s \<or> has_float xs),
                  func_lines := func_lines s @ xs,
                  func_depth := count_parens (concat xs) (func_depth s)\<rparr>)"
  using assms
proof (induction xs arbitrary: s)
  case Nil
  then show ?case by simp
next
  case (Cons x xs)
  let ?s1 = "s\<lparr>clear_func := (clear_func s \<or> float_marker x),
                  func_lines := func_lines s @ [x],
                  func_depth := count_parens x (func_depth s)\<rparr>"
  have pos: "0 < count_parens x (func_depth s)"
    using Cons.prems(3)[rule_format, of 1] by simp
  have step: "loop_body x s = Inr ?s1"
    using body_line_open[of s x] Cons.prems pos by simp
  have rest: "\<forall>k\<in>{1..length xs}. 0 < count_parens (concat (take k xs)) (func_depth ?s1)"
  proof
    fix k assume "k \<in> {1..length xs}"
    then have "Suc k \<in> {1..length (x # xs)}" by simp
    from Cons.prems(3)[rule_format, OF this]
    show "0 < count_parens (concat (take k xs)) (func_depth ?s1)"
      by (simp add: count_parens_append)
  qed
  have "for_lines xs ?s1 =
          Inr (?s1\<lparr>clear_func := (clear_func ?s1 \<or> has_float xs),
                    func_lines := func_lines ?s1 @ xs,
                    func_depth := count_parens (concat xs) (func_depth ?s1)\<rparr>)"
    using Cons.IH[of ?s1] Cons.prems rest by simp
  then show ?case using step by (simp add: count_parens_append disj_assoc)
qed


lemma first_line_open:
  assumes "top_level s" "opens_func l" "0 < count_parens l 0"
  shows "loop_body l s = Inr (func_opened s [l])"
  using assms
  by (simp add: loop_body_def func_start_def scan_line_def Let_def top_level_def
      func_opened_def depth_of_def)

lemma first_line_close:
  assumes "top_level s" "opens_func l" "count_parens l 0 = 0"
  shows "loop_body l s = Inr (func_closed s [l])"
  using assms
  by (simp add: loop_body_def func_start_def scan_line_def Let_def top_level_def
      func_closed_def)

lemma last_line_close:
  assumes "\<not> opens_func x" "depth_of (ls @ [x]) = 0" "ls \<noteq> []"
  shows "loop_body x (func_opened s ls) = Inr (func_closed s (ls @ [x]))"
  using assms
  by (simp add: loop_body_def func_start_def scan_line_def Let_def
      func_closed_def func_opened_def depth_of_def count_parens_append)

lemma run_open:
  assumes "top_level s" "opens_func l" "\<forall>x\<in>set body. \<not> opens_func x"
    "\<forall>k\<in>{1..length (l # body)}. 0 < depth_of (take k (l # body))"
  shows "for_lines (l # body) s = Inr (func_opened s (l # body))"
proof -
  have pos: "0 < count_parens l 0"
    using assms(4)[rule_format, of 1] by (simp add: depth_of_def)
  have first: "loop_body l s = Inr (func_opened s [l])"
    using first_line_open[OF assms(1,2) pos] .
  have rest: "\<forall>k\<in>{1..length body}.
                0 < count_parens (concat (take k body)) (func_depth (func_opened s [l]))"
  proof
    fix k assume "k \<in> {1..length body}"
    then have "Suc k \<in> {1..length (l # body)}" by simp
    from assms(4)[rule_format, OF this]
    show "0 < count_parens (concat (take k body)) (func_depth (func_opened s [l]))"
      by (simp add: depth_of_def func_opened_def count_parens_append)
  qed
  have "for_lines body (func_opened s [l]) = Inr (func_opened s (l # body))"
    using body_lines_open[of "func_opened s [l]" body] assms(3) rest
    by (simp add: func_opened_def depth_of_def count_parens_append)
  then show ?thesis using first by simp
qed

lemma function_prefix:
  assumes "top_level s" "is_function ls" "k \<in> {1..<length ls}" "opens_once ls"
  shows "for_lines (take k ls) s = Inr (func_opened s (take k ls))"
proof -
  from assms(2) obtain l body where ls: "ls = l # body"
    by (cases ls) (auto simp: is_function_def)
  from assms(3) obtain j where k: "k = Suc j" "j < length body"
    using ls by (cases k) auto
  have o: "opens_func l" and nb: "\<forall>x\<in>set body. \<not> opens_func x"
    and pos: "\<forall>i\<in>{1..<length ls}. 0 < depth_of (take i ls)"
    using assms(2,4) ls by (auto simp: is_function_def opens_once_def)
  have nb': "\<forall>x\<in>set (take j body). \<not> opens_func x"
    using nb by (meson in_set_takeD)
  have pos': "\<forall>i\<in>{1..length (l # take j body)}. 0 < depth_of (take i (l # take j body))"
  proof
    fix i assume i: "i \<in> {1..length (l # take j body)}"
    then have "i \<in> {1..<length ls}" using k ls by auto
    moreover have "take i (l # take j body) = take i ls"
      using i k ls by (cases i) (auto simp: min_def)
    ultimately show "0 < depth_of (take i (l # take j body))" using pos by auto
  qed
  show ?thesis
    using run_open[OF assms(1) o nb' pos'] k ls by simp
qed

lemma function_complete:
  assumes "top_level s" "is_function ls" "opens_once ls"
  shows "for_lines ls s = Inr (func_closed s ls)"
proof (cases "length ls = 1")
  case True
  then obtain l where ls: "ls = [l]" by (cases ls) auto
  then show ?thesis
    using first_line_close[OF assms(1), of l] assms(2)
    by (simp add: is_function_def depth_of_def)
next
  case False
  from assms(2) have ne: "ls \<noteq> []" by (simp add: is_function_def)
  with False have len: "1 < length ls" by (cases ls) auto
  define pre where "pre = butlast ls"
  define x where "x = last ls"
  have ls: "ls = pre @ [x]" using ne by (simp add: pre_def x_def)
  have pre_ne: "pre \<noteq> []" using len ls by (cases pre) auto
  have tk: "take (length ls - 1) ls = pre" using ls by simp
  have "length ls - 1 \<in> {1..<length ls}" using len by auto
  from function_prefix[OF assms(1,2) this assms(3)]
  have a: "for_lines pre s = Inr (func_opened s pre)" using tk by simp
  have "x \<in> set (tl ls)" using ls pre_ne by (cases pre) auto
  then have nx: "\<not> opens_func x" using assms(3) by (auto simp: opens_once_def)
  have d0: "depth_of (pre @ [x]) = 0" using assms(2) ls by (simp add: is_function_def)
  have b: "loop_body x (func_opened s pre) = Inr (func_closed s (pre @ [x]))"
    using last_line_close[OF nx d0 pre_ne] .
  have "for_lines (pre @ [x]) s = Inr (func_closed s (pre @ [x]))"
    using a b by (simp add: for_lines_append)
  then show ?thesis using ls by simp
qed

lemma concat_readlines: "concat (readlines src) = src"
  by (induction src) (auto split: list.splits)

lemma str_in_iff: "str_in p s \<longleftrightarrow> (\<exists>pre post. s = pre @ p @ post)"
proof (induction s)
  case Nil then show ?case by auto
next
  case (Cons c cs)
  show ?case
  proof
    assume "str_in p (c # cs)"
    then consider "startswith (c # cs) p" | "str_in p cs" by auto
    then show "\<exists>pre post. c # cs = pre @ p @ post"
    proof cases
      case 1
      then have "c # cs = [] @ p @ drop (length p) (c # cs)"
        unfolding startswith_def by (metis append_Nil append_take_drop_id)
      then show ?thesis by blast
    next
      case 2
      then obtain pre post where "cs = pre @ p @ post" using Cons.IH by blast
      then have "c # cs = (c # pre) @ p @ post" by simp
      then show ?thesis by blast
    qed
  next
    assume "\<exists>pre post. c # cs = pre @ p @ post"
    then obtain pre post where e: "c # cs = pre @ p @ post" by blast
    show "str_in p (c # cs)"
    proof (cases pre)
      case Nil
      then have "startswith (c # cs) p" using e by (simp add: startswith_def)
      then show ?thesis by simp
    next
      case (Cons a pre')
      then have "cs = pre' @ p @ post" using e by simp
      then show ?thesis using Cons.IH by auto
    qed
  qed
qed

lemma float_marker_iff:
  "float_marker l \<longleftrightarrow> (\<exists>pre post. l = pre @ ''f64'' @ post \<or> l = pre @ ''f32'' @ post)"
  unfolding float_marker_def str_in_iff by blast

lemma has_float_iff:
  "has_float ls \<longleftrightarrow> (\<exists>l\<in>set ls. \<exists>pre post. l = pre @ ''f64'' @ post \<or> l = pre @ ''f32'' @ post)"
  unfolding has_float_def float_marker_iff ..

lemma plain_line_step:
  assumes "top_level s" "\<not> opens_func l"
  shows "loop_body l s = Inr (s\<lparr>new_lines := new_lines s @ [l]\<rparr>)"
  using assms by (simp add: loop_body_def func_start_def scan_line_def top_level_def)

lemma top_level_func_closed: "top_level (func_closed s ls)"
  by (simp add: top_level_def func_closed_def)

lemma new_lines_func_closed:
  "new_lines (func_closed s ls) = new_lines s @ (if has_float ls then [''(func )\<newline>''] else ls)"
  by (simp add: func_closed_def)

lemma stub_rewriter_eq:
  "stub_rewriter f = (if has_float_reference f then [''(func )\<newline>''] else form_lines f)"
  by (cases f) simp_all

lemma form_scan:
  assumes "top_level s" "well_formed f" "opened_once f"
  shows "\<exists>s'. for_lines (form_lines f) s = Inr s' \<and> top_level s' \<and>
              new_lines s' = new_lines s @ stub_rewriter f"
proof (cases f)
  case (PlainLine l)
  then show ?thesis
    using assms plain_line_step[of s l] by (simp add: top_level_def)
next
  case (FunctionDefinition ls)
  then show ?thesis
    using assms function_complete[of s ls]
    by (simp add: top_level_func_closed new_lines_func_closed)
qed

lemma forms_scan:
  assumes "top_level s" "list_all well_formed fs" "list_all opened_once fs"
  shows "\<exists>s'. for_lines (concat (map form_lines fs)) s = Inr s' \<and> top_level s' \<and>
              new_lines s' = new_lines s @ concat (map stub_rewriter fs)"
  using assms
proof (induction fs arbitrary: s)
  case Nil
  then show ?case by simp
next
  case (Cons f fs)
  from form_scan[of s f] Cons.prems obtain s1 where
    s1: "for_lines (form_lines f) s = Inr s1" "top_level s1"
        "new_lines s1 = new_lines s @ stub_rewriter f" by auto
  from Cons.IH[OF s1(2)] Cons.prems obtain s2 where
    s2: "for_lines (concat (map form_lines fs)) s1 = Inr s2" "top_level s2"
        "new_lines s2 = new_lines s1 @ concat (map stub_rewriter fs)" by auto
  show ?case using s1 s2 by (simp add: for_lines_append)
qed

lemma top_level_initial: "top_level initial"
  by (simp add: top_level_def initial_def)

lemma patch_lines_forms:
  assumes "list_all well_formed fs" "list_all opened_once fs"
  shows "patch_lines (concat (map form_lines fs)) = Inr (concat (map stub_rewriter fs))"
proof -
  from forms_scan[OF top_level_initial assms] obtain s' where
    "for_lines (concat (map form_lines fs)) initial = Inr s'"
    "new_lines s' = new_lines initial @ concat (map stub_rewriter fs)" by blast
  then show ?thesis by (simp add: patch_lines_def initial_def)
qed




lemma loop_body_keeps_invariant:
  assumes "loop_body l s = Inr s'" "inside_func s \<or> func_depth s = 0"
  shows "inside_func s' \<or> func_depth s' = 0"
  using assms
  by (auto simp: loop_body_def func_start_def scan_line_def Let_def split: if_splits)

lemma for_lines_keeps_invariant:
  assumes "for_lines ls s = Inr s'" "inside_func s \<or> func_depth s = 0"
  shows "inside_func s' \<or> func_depth s' = 0"
  using assms
proof (induction ls arbitrary: s)
  case Nil
  then show ?case by simp
next
  case (Cons l ls)
  then show ?case
    by (auto split: sum.splits dest: loop_body_keeps_invariant)
qed

lemma reachable_top_level:
  assumes "for_lines ls initial = Inr s" "\<not> inside_func s"
  shows "top_level s"
  using for_lines_keeps_invariant[OF assms(1)] assms(2)
  by (simp add: top_level_def initial_def)

subsection \<open>Facts about raising and about the script as a whole\<close>

text \<open>
  The loop body raises exactly when, after the whole line has been counted, the depth
  of a function being scanned is negative.
\<close>

lemma loop_body_raises_iff:
  "loop_body line s = Inl e \<longleftrightarrow>
     inside_func (func_start line s) \<and> count_parens line (func_depth s) < 0 \<and>
     e = Exception ''func depth < 0''"
  by (auto simp: loop_body_def func_start_def scan_line_def Let_def)

lemma for_lines_raises:
  assumes "for_lines pre s0 = Inr s" "loop_body line s = Inl e"
  shows "for_lines (pre @ line # post) s0 = Inl e"
  using assms by (simp add: for_lines_append)

lemma main_decoded:
  assumes "run decode_cmd (files w) = (0, fs)" "fs ''pkg/origin.wat'' = Some src"
  shows "main run w =
    (case patch_text src of
       Inl e \<Rightarrow> (Some e, \<lparr>files = fs, spawned = spawned w @ [decode_cmd]\<rparr>)
     | Inr out \<Rightarrow>
         (case run encode_cmd (fs(''pkg/patched.wat'' \<mapsto> out)) of
            (rc2, fs2) \<Rightarrow>
              (if rc2 \<noteq> 0 then Some AssertionError else None,
               \<lparr>files = fs2, spawned = spawned w @ [decode_cmd, encode_cmd]\<rparr>)))"
  using assms
  by (simp add: main_def subprocess_run_def split: sum.splits prod.splits)

lemma main_decoder_failed:
  assumes "run decode_cmd (files w) = (rc, fs)" "rc \<noteq> 0"
  shows "main run w = (Some AssertionError, \<lparr>files = fs, spawned = spawned w @ [decode_cmd]\<rparr>)"
  using assms by (simp add: main_def subprocess_run_def)

lemma main_encoder_failed:
  assumes "run decode_cmd (files w) = (0, fs)" "fs ''pkg/origin.wat'' = Some src"
    "patch_text src = Inr out"
    "run encode_cmd (fs(''pkg/patched.wat'' \<mapsto> out)) = (rc2, fs2)" "rc2 \<noteq> 0"
  shows "main run w =
           (Some AssertionError, \<lparr>files = fs2, spawned = spawned w @ [decode_cmd, encode_cmd]\<rparr>)"
  using main_decoded[of run w fs src] assms by simp

section \<open>The claims\<close>

subsection \<open>C1: what is kept of a module\<close>

text \<open>
  C1 as stated, ``for every input that scans without error, no line outside a stubbed
  function's boundaries is dropped'', fails: the loop ends normally on an input whose
  last function is never closed, no stub is written, and the lines of that function
  are missing from the output.
\<close>

theorem unterminated_function_dropped_silently:
  "patch_lines [''(module\<newline>'', ''  (func $f (param i32)\<newline>'', ''    i32.const 0\<newline>'']
     = Inr [''(module\<newline>'']"
  by code_simp

text \<open>
  C1, amended: for every module that is a sequence of Plain Lines and complete Function
  Definitions with no other opening line inside, the output is that sequence in its
  original order, with every Plain Line and every Function Definition without a
  floating-point reference verbatim, and one stub line in place of every Function
  Definition with a floating-point reference.
\<close>

theorem well_formed_module_rewrite:
  assumes "list_all well_formed fs" "list_all opened_once fs"
  shows "patch_lines (concat (map form_lines fs)) =
           Inr (concat (map (\<lambda>f. if has_float_reference f then [''(func )\<newline>'']
                                   else form_lines f) fs))"
proof -
  have "stub_rewriter = (\<lambda>f. if has_float_reference f then [''(func )\<newline>'']
                               else form_lines f)"
    by (rule ext) (rule stub_rewriter_eq)
  then show ?thesis using patch_lines_forms[OF assms] by simp
qed

theorem well_formed_module_rewrite_witness:
  "list_all well_formed
     [PlainLine ''(module\<newline>'',
      FunctionDefinition [''  (func $f (param f64)\<newline>'', ''    nop)\<newline>''],
      FunctionDefinition [''  (func $g (param i32)\<newline>'', ''    nop)\<newline>''],
      PlainLine '')\<newline>'']
   \<and> list_all opened_once
     [PlainLine ''(module\<newline>'',
      FunctionDefinition [''  (func $f (param f64)\<newline>'', ''    nop)\<newline>''],
      FunctionDefinition [''  (func $g (param i32)\<newline>'', ''    nop)\<newline>''],
      PlainLine '')\<newline>'']
   \<and> patch_lines [''(module\<newline>'', ''  (func $f (param f64)\<newline>'', ''    nop)\<newline>'',
                   ''  (func $g (param i32)\<newline>'', ''    nop)\<newline>'', '')\<newline>'']
       = Inr [''(module\<newline>'', ''(func )\<newline>'',
              ''  (func $g (param i32)\<newline>'', ''    nop)\<newline>'', '')\<newline>'']"
proof -
  let ?fs = "[PlainLine ''(module\<newline>'',
      FunctionDefinition [''  (func $f (param f64)\<newline>'', ''    nop)\<newline>''],
      FunctionDefinition [''  (func $g (param i32)\<newline>'', ''    nop)\<newline>''],
      PlainLine '')\<newline>'']"
  have wf: "list_all well_formed ?fs" by code_simp
  have oo: "list_all opened_once ?fs" by code_simp
  have nf: "\<not> has_float [''  (func $g (param i32)\<newline>'', ''    nop)\<newline>'']"
    by code_simp
  have f: "has_float [''  (func $f (param f64)\<newline>'', ''    nop)\<newline>'']"
    by code_simp
  have "patch_lines [''(module\<newline>'', ''  (func $f (param f64)\<newline>'', ''    nop)\<newline>'',
                   ''  (func $g (param i32)\<newline>'', ''    nop)\<newline>'', '')\<newline>'']
       = Inr [''(module\<newline>'', ''(func )\<newline>'',
              ''  (func $g (param i32)\<newline>'', ''    nop)\<newline>'', '')\<newline>'']"
    using well_formed_module_rewrite[OF wf oo] nf f by simp
  then show ?thesis using wf oo by blast
qed

subsection \<open>C2: a function with a floating-point reference becomes the stub\<close>

text \<open>
  C2 as stated, ``every Function Definition whose has_float_reference is true is
  replaced by the stub line'', fails: the opening test is run on every line, so the
  second line below starts the function anew, with an empty buffer and the flag taken
  from that line alone. The run of three lines is a Function Definition and its first
  line has a floating-point marker; the output is its last two lines and no stub.
\<close>

theorem float_function_restarted_escapes_the_stub:
  "is_function [''(func $a (param f64)\<newline>'', ''(func $b\<newline>'', ''))\<newline>'']
   \<and> has_float [''(func $a (param f64)\<newline>'', ''(func $b\<newline>'', ''))\<newline>'']
   \<and> patch_lines [''(func $a (param f64)\<newline>'', ''(func $b\<newline>'', ''))\<newline>'']
       = Inr [''(func $b\<newline>'', ''))\<newline>'']"
  by code_simp

text \<open>
  C2, amended: scanning, from top level, a Function Definition that has a
  floating-point reference and in which no line after the first is an opening line
  appends exactly one line to the output, the fixed line \<open>(func )\<close>, whatever the
  number of lines of the definition; the scanner is at top level again; and the stub
  line contains no floating-point marker.
\<close>

theorem float_function_becomes_stub:
  assumes "top_level s" "is_function ls" "opens_once ls" "has_float ls"
  shows "\<exists>s'. for_lines ls s = Inr s' \<and> top_level s' \<and>
              new_lines s' = new_lines s @ [''(func )\<newline>''] \<and>
              \<not> float_marker ''(func )\<newline>''"
proof -
  have "\<not> float_marker ''(func )\<newline>''" by code_simp
  then show ?thesis
    using function_complete[OF assms(1,2,3)] assms(4)
    by (simp add: top_level_func_closed new_lines_func_closed)
qed

theorem float_function_becomes_stub_witness:
  "top_level initial
   \<and> is_function [''  (func $f (param f64)\<newline>'', ''    (block\<newline>'', ''      (nop)\<newline>'',
                   ''    )\<newline>'', ''  )\<newline>'']
   \<and> opens_once [''  (func $f (param f64)\<newline>'', ''    (block\<newline>'', ''      (nop)\<newline>'',
                   ''    )\<newline>'', ''  )\<newline>'']
   \<and> has_float [''  (func $f (param f64)\<newline>'', ''    (block\<newline>'', ''      (nop)\<newline>'',
                 ''    )\<newline>'', ''  )\<newline>'']
   \<and> patch_lines [''  (func $f (param f64)\<newline>'', ''    (block\<newline>'', ''      (nop)\<newline>'',
                   ''    )\<newline>'', ''  )\<newline>''] = Inr [''(func )\<newline>'']"
proof -
  let ?ls = "[''  (func $f (param f64)\<newline>'', ''    (block\<newline>'', ''      (nop)\<newline>'',
               ''    )\<newline>'', ''  )\<newline>'']"
  have a: "is_function ?ls" by code_simp
  have o: "opens_once ?ls" by code_simp
  have b: "has_float ?ls" by code_simp
  from float_function_becomes_stub[OF top_level_initial a o b] obtain s' where
    "for_lines ?ls initial = Inr s'" "new_lines s' = new_lines initial @ [''(func )\<newline>'']"
    by blast
  then have "patch_lines ?ls = Inr [''(func )\<newline>'']"
    by (simp add: patch_lines_def initial_def)
  then show ?thesis using a o b top_level_initial by blast
qed

subsection \<open>C3: when the depth check fires\<close>

text \<open>
  C3 as stated, ``the scan fails if the depth becomes negative at any character, also
  when it is non-negative again by the end of that line'', fails: in the line below the
  depth is \<open>-1\<close> after the second closing parenthesis and \<open>1\<close> at the end of the line;
  no exception is raised and the text is written out unchanged.
\<close>

theorem negative_depth_inside_a_line_goes_unnoticed:
  "count_parens ''(func $f))'' 0 = -1 \<and>
   patch_text ''(func $f))((\<newline>)\<newline>'' = Inr ''(func $f))((\<newline>)\<newline>''"
  by code_simp

text \<open>
  C3, amended: while a function is being scanned, a line at whose end the cumulative
  depth is negative raises \<open>Exception("func depth < 0")\<close>; the script ends there: the
  files are as the decoder left them (no rewritten text is written) and the encoder is
  not started.
\<close>

theorem negative_depth_at_line_end_aborts:
  assumes "for_lines pre initial = Inr s"
    "inside_func (func_start line s)" "count_parens line (func_depth s) < 0"
    "readlines src = pre @ line # post"
    "run decode_cmd (files w) = (0, fs)" "fs ''pkg/origin.wat'' = Some src"
  shows "loop_body line s = Inl (Exception ''func depth < 0'') \<and>
         patch_text src = Inl (Exception ''func depth < 0'') \<and>
         main run w = (Some (Exception ''func depth < 0''),
                       \<lparr>files = fs, spawned = spawned w @ [decode_cmd]\<rparr>)"
proof -
  have a: "loop_body line s = Inl (Exception ''func depth < 0'')"
    using assms(2,3) by (simp add: loop_body_raises_iff)
  have "for_lines (readlines src) initial = Inl (Exception ''func depth < 0'')"
    unfolding assms(4) using for_lines_raises[OF assms(1) a] .
  then have b: "patch_text src = Inl (Exception ''func depth < 0'')"
    by (simp add: patch_text_def patch_lines_def)
  show ?thesis using a b main_decoded[of run w fs src] assms(5,6) by simp
qed

theorem negative_depth_at_line_end_aborts_witness:
  "for_lines [''(func $f\<newline>''] initial
     = Inr \<lparr>new_lines = [], inside_func = True, func_depth = 1, clear_func = False,
            func_lines = [''(func $f\<newline>''], func_sig = ''(func $f'', printed = []\<rparr>
   \<and> count_parens ''  nop))\<newline>'' 1 = -1
   \<and> readlines ''(func $f\<newline>  nop))\<newline>(table 1)\<newline>''
       = [''(func $f\<newline>''] @ ''  nop))\<newline>'' # [''(table 1)\<newline>'']
   \<and> patch_text ''(func $f\<newline>  nop))\<newline>(table 1)\<newline>'' = Inl (Exception ''func depth < 0'')
   \<and> main (\<lambda>argv fs. (0, fs(''pkg/origin.wat'' \<mapsto> ''(func $f\<newline>  nop))\<newline>(table 1)\<newline>'')))
           \<lparr>files = Map.empty, spawned = []\<rparr>
       = (Some (Exception ''func depth < 0''),
          \<lparr>files = [''pkg/origin.wat'' \<mapsto> ''(func $f\<newline>  nop))\<newline>(table 1)\<newline>''],
           spawned = [decode_cmd]\<rparr>)"
proof -
  let ?s = "\<lparr>new_lines = [], inside_func = True, func_depth = 1, clear_func = False,
            func_lines = [''(func $f\<newline>''], func_sig = ''(func $f'', printed = []\<rparr>"
  let ?src = "''(func $f\<newline>  nop))\<newline>(table 1)\<newline>''"
  let ?run = "\<lambda>(argv :: string list) (fs :: string \<Rightarrow> string option).
                (0 :: int, fs(''pkg/origin.wat'' \<mapsto> ?src))"
  let ?w = "\<lparr>files = Map.empty, spawned = []\<rparr>"
  have a: "for_lines [''(func $f\<newline>''] initial = Inr ?s" by code_simp
  have b: "inside_func (func_start ''  nop))\<newline>'' ?s)" by code_simp
  have c: "count_parens ''  nop))\<newline>'' (func_depth ?s) < 0" by code_simp
  have c': "count_parens ''  nop))\<newline>'' 1 = -1" by code_simp
  have d: "readlines ?src = [''(func $f\<newline>''] @ ''  nop))\<newline>'' # [''(table 1)\<newline>'']"
    by code_simp
  have e: "?run decode_cmd (files ?w) = (0, [''pkg/origin.wat'' \<mapsto> ?src])" by simp
  have f: "[''pkg/origin.wat'' \<mapsto> ?src] ''pkg/origin.wat'' = Some ?src" by simp
  from negative_depth_at_line_end_aborts[where run = ?run and w = ?w
      and fs = "[''pkg/origin.wat'' \<mapsto> ?src]" and src = ?src, OF a b c d e f]
  have "patch_text ?src = Inl (Exception ''func depth < 0'')"
    and "main ?run ?w = (Some (Exception ''func depth < 0''),
          \<lparr>files = [''pkg/origin.wat'' \<mapsto> ?src], spawned = spawned ?w @ [decode_cmd]\<rparr>)"
    by blast+
  then show ?thesis using a c' d by simp
qed

subsection \<open>C4: a function still open at the end of the input\<close>




subsection \<open>C5: where a function ends\<close>

text \<open>
  C5 as stated, ``a Function Definition delimited by the scanner extends from its
  opening line exactly to the line at which the depth counted from the opening line
  returns to zero'', fails. The four lines below are a Function Definition: the first
  is an opening line and the depth counted from it is 1, 2, 1, 0 at the line ends. The
  second line starts the function anew and the depth goes on from 1, so what the
  scanner delimits is the last three lines: a function that does not start at the first
  line, and that ends one line after the depth counted from its own opening line has
  returned to zero.
\<close>

theorem inner_opening_line_moves_the_function_start:
  "is_function [''(func $a\<newline>'', ''(func $b\<newline>'', '')\<newline>'', '')\<newline>'']
   \<and> for_lines [''(func $a\<newline>'', ''(func $b\<newline>'', '')\<newline>'', '')\<newline>''] initial
     = Inr \<lparr>new_lines = [''(func $b\<newline>'', '')\<newline>'', '')\<newline>''], inside_func = False,
            func_depth = 0, clear_func = False,
            func_lines = [''(func $b\<newline>'', '')\<newline>'', '')\<newline>''],
            func_sig = ''(func $b'', printed = []\<rparr>
   \<and> depth_of [''(func $b\<newline>'', '')\<newline>''] = 0"
  by code_simp

text \<open>
  C5, amended: on a Function Definition in which no line after the first is an opening
  line, entered from top level, the scanner is still inside the function after every
  proper prefix of its lines, whatever depth the nested expressions reach, with the
  prefix in its buffer and nothing written; after the last line, the one at whose end
  the depth counted character by character from the opening line is back at zero, it
  is outside, with exactly the lines of the definition in the buffer. A definition of
  a single line is delimited as that line.
\<close>

theorem function_ends_where_depth_returns_to_zero:
  assumes "top_level s" "is_function ls" "opens_once ls"
  shows "(\<forall>k\<in>{1..<length ls}.
            \<exists>sk. for_lines (take k ls) s = Inr sk \<and> inside_func sk \<and>
                 func_lines sk = take k ls \<and> func_depth sk = depth_of (take k ls) \<and>
                 new_lines sk = new_lines s)
         \<and> (\<exists>s'. for_lines ls s = Inr s' \<and> \<not> inside_func s' \<and> func_lines s' = ls \<and>
                  func_depth s' = 0)"
proof
  show "\<forall>k\<in>{1..<length ls}.
            \<exists>sk. for_lines (take k ls) s = Inr sk \<and> inside_func sk \<and>
                 func_lines sk = take k ls \<and> func_depth sk = depth_of (take k ls) \<and>
                 new_lines sk = new_lines s"
  proof
    fix k assume "k \<in> {1..<length ls}"
    from function_prefix[OF assms(1,2) this assms(3)]
    show "\<exists>sk. for_lines (take k ls) s = Inr sk \<and> inside_func sk \<and>
                 func_lines sk = take k ls \<and> func_depth sk = depth_of (take k ls) \<and>
                 new_lines sk = new_lines s"
      by (simp add: func_opened_def)
  qed
  show "\<exists>s'. for_lines ls s = Inr s' \<and> \<not> inside_func s' \<and> func_lines s' = ls \<and>
             func_depth s' = 0"
    using function_complete[OF assms] by (simp add: func_closed_def)
qed

theorem function_ends_where_depth_returns_to_zero_witness:
  "is_function [''(func $f (param i32)\<newline>'', ''  (block (loop (nop)\<newline>'', ''  ))\<newline>'', '')\<newline>'']
   \<and> opens_once [''(func $f (param i32)\<newline>'', ''  (block (loop (nop)\<newline>'', ''  ))\<newline>'', '')\<newline>'']
   \<and> depth_of [''(func $f (param i32)\<newline>'', ''  (block (loop (nop)\<newline>''] = 3
   \<and> patch_lines [''(func $f (param i32)\<newline>'', ''  (block (loop (nop)\<newline>'', ''  ))\<newline>'', '')\<newline>'',
                   ''(table 1)\<newline>'']
       = Inr [''(func $f (param i32)\<newline>'', ''  (block (loop (nop)\<newline>'', ''  ))\<newline>'', '')\<newline>'',
              ''(table 1)\<newline>'']
   \<and> is_function [''(func (result i32) (i32.const 0))\<newline>'']"
proof -
  let ?ls = "[''(func $f (param i32)\<newline>'', ''  (block (loop (nop)\<newline>'', ''  ))\<newline>'', '')\<newline>'']"
  have a: "is_function ?ls" by code_simp
  have o: "opens_once ?ls" by code_simp
  have b: "depth_of [''(func $f (param i32)\<newline>'', ''  (block (loop (nop)\<newline>''] = 3" by code_simp
  have c: "is_function [''(func (result i32) (i32.const 0))\<newline>'']" by code_simp
  have nf: "\<not> has_float ?ls" by code_simp
  have np: "\<not> opens_func ''(table 1)\<newline>''" by code_simp
  from function_ends_where_depth_returns_to_zero[OF top_level_initial a o] obtain s' where
    s': "for_lines ?ls initial = Inr s'" "\<not> inside_func s'" "func_depth s' = 0" by blast
  have s'eq: "s' = func_closed initial ?ls"
    using function_complete[OF top_level_initial a o] s'(1) by simp
  have tl: "top_level s'" using s'(2,3) by (simp add: top_level_def)
  have "for_lines (?ls @ [''(table 1)\<newline>'']) initial
          = Inr (s'\<lparr>new_lines := new_lines s' @ [''(table 1)\<newline>'']\<rparr>)"
    using s'(1) plain_line_step[OF tl np] by (simp only: for_lines_append) simp
  then have "patch_lines (?ls @ [''(table 1)\<newline>'']) = Inr (?ls @ [''(table 1)\<newline>''])"
    using nf by (simp add: patch_lines_def s'eq func_closed_def initial_def del: for_lines.simps)
  then have "patch_lines [''(func $f (param i32)\<newline>'', ''  (block (loop (nop)\<newline>'', ''  ))\<newline>'', '')\<newline>'',
                   ''(table 1)\<newline>'']
       = Inr [''(func $f (param i32)\<newline>'', ''  (block (loop (nop)\<newline>'', ''  ))\<newline>'', '')\<newline>'',
              ''(table 1)\<newline>'']" by simp
  then show ?thesis using a o b c by blast
qed

subsection \<open>C6: which lines start a function\<close>




subsection \<open>C7: the floating-point flag never falls back\<close>

text \<open>
  C7 as stated, ``once a line with a floating-point marker has been seen, the flag
  remains true for all remaining lines of that function, and the function is
  stubbed'', fails: an opening line assigns the flag instead of adding to it. In the
  Function Definition below the flag is set after the first line and cleared after the
  second, and no stub is written.
\<close>

theorem float_flag_cleared_by_inner_opening_line:
  "is_function [''(func $a (result f32)\<newline>'', ''  (func $b\<newline>'', ''  nop))\<newline>'']
   \<and> for_lines [''(func $a (result f32)\<newline>''] initial
     = Inr \<lparr>new_lines = [], inside_func = True, func_depth = 1, clear_func = True,
            func_lines = [''(func $a (result f32)\<newline>''],
            func_sig = ''(func $a (result f32)'', printed = []\<rparr>
   \<and> for_lines [''(func $a (result f32)\<newline>'', ''  (func $b\<newline>''] initial
     = Inr \<lparr>new_lines = [], inside_func = True, func_depth = 2, clear_func = False,
            func_lines = [''  (func $b\<newline>''], func_sig = ''(func $b'', printed = []\<rparr>
   \<and> patch_lines [''(func $a (result f32)\<newline>'', ''  (func $b\<newline>'', ''  nop))\<newline>'']
     = Inr [''  (func $b\<newline>'', ''  nop))\<newline>'']"
  by code_simp

text \<open>
  C7, amended: within a Function Definition in which no line after the first is an
  opening line, entered from top level, once line \<open>j\<close> contains a floating-point marker,
  \<open>clear_func\<close> is set after every later line of the function, and when the function
  closes it is replaced by the stub, whatever the later lines contain.
\<close>

theorem float_flag_stays_set:
  assumes "top_level s" "is_function ls" "opens_once ls" "j < length ls" "float_marker (ls ! j)"
  shows "(\<forall>k\<in>{Suc j..<length ls}.
            \<exists>sk. for_lines (take k ls) s = Inr sk \<and> inside_func sk \<and> clear_func sk)
         \<and> (\<exists>s'. for_lines ls s = Inr s' \<and> clear_func s' \<and>
                  new_lines s' = new_lines s @ [''(func )\<newline>''])"
proof
  show "\<forall>k\<in>{Suc j..<length ls}.
            \<exists>sk. for_lines (take k ls) s = Inr sk \<and> inside_func sk \<and> clear_func sk"
  proof
    fix k assume k: "k \<in> {Suc j..<length ls}"
    then have k1: "k \<in> {1..<length ls}" by auto
    have "ls ! j \<in> set (take k ls)"
      using k assms(4) by (auto simp: in_set_conv_nth intro!: exI[of _ j])
    then have "has_float (take k ls)" using assms(5) by (auto simp: has_float_def)
    then show "\<exists>sk. for_lines (take k ls) s = Inr sk \<and> inside_func sk \<and> clear_func sk"
      using function_prefix[OF assms(1,2) k1 assms(3)] by (simp add: func_opened_def)
  qed
  have "has_float ls" using assms(4,5) by (auto simp: has_float_def)
  then show "\<exists>s'. for_lines ls s = Inr s' \<and> clear_func s' \<and>
                  new_lines s' = new_lines s @ [''(func )\<newline>'']"
    using function_complete[OF assms(1,2,3)] by (simp add: func_closed_def)
qed

theorem float_flag_stays_set_witness:
  "is_function [''(func $f\<newline>'', ''  (local f32)\<newline>'', ''  (nop)\<newline>'', ''  i32.const 0)\<newline>'']
   \<and> opens_once [''(func $f\<newline>'', ''  (local f32)\<newline>'', ''  (nop)\<newline>'', ''  i32.const 0)\<newline>'']
   \<and> float_marker ([''(func $f\<newline>'', ''  (local f32)\<newline>'', ''  (nop)\<newline>'', ''  i32.const 0)\<newline>''] ! 1)
   \<and> \<not> float_marker ''  (nop)\<newline>'' \<and> \<not> float_marker ''  i32.const 0)\<newline>''
   \<and> patch_lines [''(func $f\<newline>'', ''  (local f32)\<newline>'', ''  (nop)\<newline>'', ''  i32.const 0)\<newline>'']
       = Inr [''(func )\<newline>'']"
proof -
  let ?ls = "[''(func $f\<newline>'', ''  (local f32)\<newline>'', ''  (nop)\<newline>'', ''  i32.const 0)\<newline>'']"
  have a: "is_function ?ls" by code_simp
  have o: "opens_once ?ls" by code_simp
  have b: "float_marker (?ls ! 1)" by code_simp
  have c: "\<not> float_marker ''  (nop)\<newline>''" "\<not> float_marker ''  i32.const 0)\<newline>''"
    by code_simp+
  have j: "(1::nat) < length ?ls" by simp
  from float_flag_stays_set[OF top_level_initial a o j b] obtain s' where
    "for_lines ?ls initial = Inr s'" "new_lines s' = new_lines initial @ [''(func )\<newline>'']"
    by blast
  then have "patch_lines ?ls = Inr [''(func )\<newline>'']"
    by (simp add: patch_lines_def initial_def del: for_lines.simps)
  then show ?thesis using a o b c by blast
qed

subsection \<open>C8: the rewrite leaves a clean module alone\<close>

text \<open>
  C8 as stated, ``for every well-formed module in which no function contains a
  floating-point marker, the rewrite returns the input, and applying it twice gives
  the same as applying it once'', fails. The text below is a Plain Line, a Function
  Definition without any marker, and a Plain Line. The second line of the function
  starts it anew, so the output lacks the first line of the function; and the second
  run on that output raises, the depth being negative at the end of its third line.
\<close>

theorem clean_module_with_inner_opening_line_is_changed:
  "list_all well_formed
     [PlainLine ''(module\<newline>'',
      FunctionDefinition [''  (func $a\<newline>'', ''  (func $b\<newline>'', ''  ))\<newline>''],
      PlainLine '')\<newline>'']
   \<and> \<not> has_float_reference
         (FunctionDefinition [''  (func $a\<newline>'', ''  (func $b\<newline>'', ''  ))\<newline>''])
   \<and> readlines ''(module\<newline>  (func $a\<newline>  (func $b\<newline>  ))\<newline>)\<newline>''
       = concat (map form_lines
           [PlainLine ''(module\<newline>'',
            FunctionDefinition [''  (func $a\<newline>'', ''  (func $b\<newline>'', ''  ))\<newline>''],
            PlainLine '')\<newline>''])
   \<and> patch_text ''(module\<newline>  (func $a\<newline>  (func $b\<newline>  ))\<newline>)\<newline>''
       = Inr ''(module\<newline>  (func $b\<newline>  ))\<newline>)\<newline>''
   \<and> patch_text ''(module\<newline>  (func $b\<newline>  ))\<newline>)\<newline>'' = Inl (Exception ''func depth < 0'')"
  by code_simp

text \<open>
  C8, amended: for a text whose lines form a sequence of Plain Lines and complete
  Function Definitions with no other opening line inside, none of the functions having
  a floating-point reference, the rewrite returns the text itself, so rewriting the
  result again returns the same text once more. Plain Lines may contain the markers:
  they are not looked at.
\<close>

theorem clean_module_rewrite_is_identity:
  assumes "list_all well_formed fs" "list_all opened_once fs"
    "\<forall>f\<in>set fs. \<not> has_float_reference f"
    "readlines src = concat (map form_lines fs)"
  shows "patch_text src = Inr src \<and>
         (case patch_text src of Inl e \<Rightarrow> Inl e | Inr out \<Rightarrow> patch_text out) = patch_text src"
proof -
  have eq: "map stub_rewriter fs = map form_lines fs"
    using assms(3) by (induction fs) (simp_all add: stub_rewriter_eq)
  have "patch_lines (readlines src) = Inr (readlines src)"
    unfolding assms(4) using patch_lines_forms[OF assms(1,2)] by (simp only: eq)
  then have "patch_text src = Inr src"
    by (simp add: patch_text_def concat_readlines)
  then show ?thesis by simp
qed

theorem clean_module_rewrite_is_identity_witness:
  "list_all well_formed
         [PlainLine ''(module\<newline>'', PlainLine ''  (type (;0;) (func (param f64)))\<newline>'',
          FunctionDefinition [''  (func $g (type 1)\<newline>'', ''    nop)\<newline>''],
          PlainLine '')\<newline>'']
   \<and> list_all opened_once
         [PlainLine ''(module\<newline>'', PlainLine ''  (type (;0;) (func (param f64)))\<newline>'',
          FunctionDefinition [''  (func $g (type 1)\<newline>'', ''    nop)\<newline>''],
          PlainLine '')\<newline>'']
   \<and> \<not> has_float_reference (FunctionDefinition [''  (func $g (type 1)\<newline>'', ''    nop)\<newline>''])
   \<and> readlines ''(module\<newline>  (type (;0;) (func (param f64)))\<newline>  (func $g (type 1)\<newline>    nop)\<newline>)\<newline>''
     = concat (map form_lines
         [PlainLine ''(module\<newline>'', PlainLine ''  (type (;0;) (func (param f64)))\<newline>'',
          FunctionDefinition [''  (func $g (type 1)\<newline>'', ''    nop)\<newline>''],
          PlainLine '')\<newline>''])
   \<and> patch_text ''(module\<newline>  (type (;0;) (func (param f64)))\<newline>  (func $g (type 1)\<newline>    nop)\<newline>)\<newline>''
     = Inr ''(module\<newline>  (type (;0;) (func (param f64)))\<newline>  (func $g (type 1)\<newline>    nop)\<newline>)\<newline>''"
proof -
  let ?fs = "[PlainLine ''(module\<newline>'', PlainLine ''  (type (;0;) (func (param f64)))\<newline>'',
          FunctionDefinition [''  (func $g (type 1)\<newline>'', ''    nop)\<newline>''],
          PlainLine '')\<newline>'']"
  let ?src = "''(module\<newline>  (type (;0;) (func (param f64)))\<newline>  (func $g (type 1)\<newline>    nop)\<newline>)\<newline>''"
  have wf: "list_all well_formed ?fs" by code_simp
  have oo: "list_all opened_once ?fs" by code_simp
  have nf: "\<forall>f\<in>set ?fs. \<not> has_float_reference f" by code_simp
  have nf': "\<not> has_float_reference (FunctionDefinition [''  (func $g (type 1)\<newline>'', ''    nop)\<newline>''])"
    by code_simp
  have rl: "readlines ?src = concat (map form_lines ?fs)" by code_simp
  from clean_module_rewrite_is_identity[OF wf oo nf rl] have "patch_text ?src = Inr ?src"
    by (rule conjunct1)
  then show ?thesis using wf oo nf' rl by blast
qed

subsection \<open>C9: the converters\<close>

text \<open>
  C9: each converter is started once and its return code is asserted to be zero. If
  the decoder returns a nonzero code, the script ends with an \<open>AssertionError\<close> right
  there, whatever \<open>pkg/origin.wat\<close> holds: the files are as the decoder left them, so
  nothing has been rewritten, and the decoder is the only process that was started.
  If the decoder returns 0, the scan succeeds and the encoder returns a nonzero code,
  the script ends with an \<open>AssertionError\<close>: the files are as the encoder left them,
  and each converter was started exactly once.
\<close>

theorem converter_failure_aborts_the_script:
  "(run decode_cmd (files w) = (rc, fs) \<and> rc \<noteq> 0 \<longrightarrow>
      main run w = (Some AssertionError, \<lparr>files = fs, spawned = spawned w @ [decode_cmd]\<rparr>))
   \<and> (run decode_cmd (files w) = (0, fs') \<and> fs' ''pkg/origin.wat'' = Some src \<and>
      patch_text src = Inr out \<and>
      run encode_cmd (fs'(''pkg/patched.wat'' \<mapsto> out)) = (rc2, fs2) \<and> rc2 \<noteq> 0 \<longrightarrow>
      main run w =
        (Some AssertionError, \<lparr>files = fs2, spawned = spawned w @ [decode_cmd, encode_cmd]\<rparr>))"
  using main_decoder_failed[of run w rc fs] main_encoder_failed[of run w fs' src out rc2 fs2]
  by blast

theorem converter_failure_aborts_the_script_witness:
  "main (\<lambda>argv fs. (1, fs)) \<lparr>files = Map.empty, spawned = []\<rparr>
     = (Some AssertionError, \<lparr>files = Map.empty, spawned = [decode_cmd]\<rparr>)
   \<and> patch_text ''(module)\<newline>'' = Inr ''(module)\<newline>''
   \<and> main (\<lambda>argv fs. (if argv = decode_cmd then 0 else 2, fs))
          \<lparr>files = [''pkg/origin.wat'' \<mapsto> ''(module)\<newline>''], spawned = []\<rparr>
     = (Some AssertionError,
        \<lparr>files = [''pkg/origin.wat'' \<mapsto> ''(module)\<newline>'', ''pkg/patched.wat'' \<mapsto> ''(module)\<newline>''],
         spawned = [decode_cmd, encode_cmd]\<rparr>)"
proof -
  let ?run1 = "\<lambda>(argv :: string list) (fs :: string \<Rightarrow> string option). (1 :: int, fs)"
  let ?w1 = "\<lparr>files = Map.empty, spawned = []\<rparr>"
  let ?src = "''(module)\<newline>''"
  let ?run2 = "\<lambda>(argv :: string list) (fs :: string \<Rightarrow> string option).
                 (if argv = decode_cmd then 0 else 2 :: int, fs)"
  let ?fs = "[''pkg/origin.wat'' \<mapsto> ?src]"
  let ?w2 = "\<lparr>files = ?fs, spawned = []\<rparr>"
  have ne: "encode_cmd \<noteq> decode_cmd" by code_simp
  have p: "patch_text ?src = Inr ?src" by code_simp
  have a1: "?run1 decode_cmd (files ?w1) = (1, Map.empty) \<and> (1 :: int) \<noteq> 0" by simp
  have a2: "?run2 decode_cmd (files ?w2) = (0, ?fs) \<and> ?fs ''pkg/origin.wat'' = Some ?src \<and>
      patch_text ?src = Inr ?src \<and>
      ?run2 encode_cmd (?fs(''pkg/patched.wat'' \<mapsto> ?src)) = (2, ?fs(''pkg/patched.wat'' \<mapsto> ?src)) \<and>
      (2 :: int) \<noteq> 0"
    using ne p by simp
  have m1: "main ?run1 ?w1 = (Some AssertionError, \<lparr>files = Map.empty, spawned = spawned ?w1 @ [decode_cmd]\<rparr>)"
    using converter_failure_aborts_the_script[where run = ?run1 and w = ?w1 and rc = 1
        and fs = Map.empty] a1 by blast
  have m2: "main ?run2 ?w2 = (Some AssertionError,
        \<lparr>files = ?fs(''pkg/patched.wat'' \<mapsto> ?src), spawned = spawned ?w2 @ [decode_cmd, encode_cmd]\<rparr>)"
    using converter_failure_aborts_the_script[where run = ?run2 and w = ?w2 and fs' = ?fs
        and src = ?src and out = ?src and ?rc2.0 = 2 and ?fs2.0 = "?fs(''pkg/patched.wat'' \<mapsto> ?src)"]
      a2 by blast
  show ?thesis using m1 m2 p by simp
qed

subsection \<open>C10: the flag is a raw substring test\<close>

text \<open>
  C10 as stated, ``for every scanned function the flag is true if and only if at least
  one of its lines, the opening line included, contains \<open>f64\<close> or \<open>f32\<close>'', fails. The
  opening line of the Function Definition below contains \<open>f64\<close>; the second line
  starts the function anew, and when the function closes the flag is not set and the
  lines in the buffer are written out.
\<close>

theorem marker_on_opening_line_forgotten:
  "is_function [''(func $a (param f64)\<newline>'', ''  (func $b (param i32)\<newline>'', ''  nop))\<newline>'']
   \<and> ''(func $a (param f64)\<newline>'' = ''(func $a (param '' @ ''f64'' @ '')\<newline>''
   \<and> for_lines [''(func $a (param f64)\<newline>'', ''  (func $b (param i32)\<newline>'', ''  nop))\<newline>'']
        initial
     = Inr \<lparr>new_lines = [''  (func $b (param i32)\<newline>'', ''  nop))\<newline>''], inside_func = False,
            func_depth = 0, clear_func = False,
            func_lines = [''  (func $b (param i32)\<newline>'', ''  nop))\<newline>''],
            func_sig = ''(func $b (param i32)'', printed = []\<rparr>"
  by code_simp

text \<open>
  C10, amended: when a Function Definition in which no line after the first is an
  opening line has been scanned, \<open>clear_func\<close> holds if and only if one of its lines,
  the opening line included, contains the characters \<open>f64\<close> or \<open>f32\<close> next to each
  other anywhere, compared character by character; the function is replaced by the
  stub exactly then. So an identifier such as \<open>$buf64\<close> is enough to stub a function,
  and \<open>$F64\<close> is not.
\<close>

theorem float_flag_iff_marker_substring:
  assumes "top_level s" "is_function ls" "opens_once ls"
  shows "\<exists>s'. for_lines ls s = Inr s' \<and>
              (clear_func s' \<longleftrightarrow>
                 (\<exists>l\<in>set ls. \<exists>pre post. l = pre @ ''f64'' @ post \<or> l = pre @ ''f32'' @ post)) \<and>
              new_lines s' = new_lines s @ (if clear_func s' then [''(func )\<newline>''] else ls)"
proof -
  have "clear_func (func_closed s ls) = has_float ls"
    by (simp add: func_closed_def)
  then show ?thesis
    using function_complete[OF assms] has_float_iff[of ls]
    by (simp add: new_lines_func_closed)
qed

theorem float_flag_iff_marker_substring_witness:
  "is_function [''(func $buf64 (param i32)\<newline>'', ''  nop)\<newline>'']
   \<and> opens_once [''(func $buf64 (param i32)\<newline>'', ''  nop)\<newline>'']
   \<and> ''(func $buf64 (param i32)\<newline>'' = ''(func $bu'' @ ''f64'' @ '' (param i32)\<newline>''
   \<and> patch_lines [''(func $buf64 (param i32)\<newline>'', ''  nop)\<newline>''] = Inr [''(func )\<newline>'']
   \<and> is_function [''(func $F64 (param i32)\<newline>'', ''  nop)\<newline>'']
   \<and> opens_once [''(func $F64 (param i32)\<newline>'', ''  nop)\<newline>'']
   \<and> patch_lines [''(func $F64 (param i32)\<newline>'', ''  nop)\<newline>'']
       = Inr [''(func $F64 (param i32)\<newline>'', ''  nop)\<newline>'']"
proof -
  let ?ls = "[''(func $buf64 (param i32)\<newline>'', ''  nop)\<newline>'']"
  let ?ms = "[''(func $F64 (param i32)\<newline>'', ''  nop)\<newline>'']"
  let ?M = "\<lambda>xs. \<exists>l\<in>set xs. \<exists>pre post. l = pre @ ''f64'' @ post \<or> l = pre @ ''f32'' @ post"
  have a: "is_function ?ls" by code_simp
  have o: "opens_once ?ls" by code_simp
  have e: "''(func $buf64 (param i32)\<newline>'' = ''(func $bu'' @ ''f64'' @ '' (param i32)\<newline>''"
    by simp
  have a2: "is_function ?ms" by code_simp
  have o2: "opens_once ?ms" by code_simp
  have hf: "has_float ?ls" by code_simp
  have m: "?M ?ls" using hf unfolding has_float_iff .
  have nhf: "\<not> has_float ?ms" by code_simp
  have nm: "\<not> ?M ?ms" using nhf unfolding has_float_iff .
  from float_flag_iff_marker_substring[OF top_level_initial a o] obtain s' where
    h: "for_lines ?ls initial = Inr s'" "clear_func s' \<longleftrightarrow> ?M ?ls"
       "new_lines s' = new_lines initial @ (if clear_func s' then [''(func )\<newline>''] else ?ls)"
    by blast
  have c: "clear_func s'" using h(2) m by blast
  have n1: "new_lines s' = [''(func )\<newline>'']"
    using h(3) c by (simp add: initial_def)
  have p1: "patch_lines ?ls = Inr [''(func )\<newline>'']"
    unfolding patch_lines_def h(1) using n1 by simp
  from float_flag_iff_marker_substring[OF top_level_initial a2 o2] obtain s2 where
    h2: "for_lines ?ms initial = Inr s2" "clear_func s2 \<longleftrightarrow> ?M ?ms"
        "new_lines s2 = new_lines initial @ (if clear_func s2 then [''(func )\<newline>''] else ?ms)"
    by blast
  have c2: "\<not> clear_func s2" using h2(2) nm by blast
  have n2: "new_lines s2 = ?ms"
    using h2(3) c2 by (simp add: initial_def)
  have p2: "patch_lines ?ms = Inr ?ms"
    unfolding patch_lines_def h2(1) using n2 by simp
  show ?thesis using a o e p1 a2 o2 p2 by blast
qed

end
